theory Spec2Isabelle
  imports Complex_Main
begin

section \<open>The icon generator \<^verbatim>\<open>app-store/generate_icon.py\<close>\<close>

text \<open>
  The script draws a fixed design with the imaging library (bond lines, outer discs,
  punched inner discs on a solid background) and then writes the design at the iOS icon
  sizes, together with a manifest \<^verbatim>\<open>Contents.json\<close>.

  The embedding follows the script line by line. What the script leaves to the imaging
  library (which pixels a line or an ellipse covers, how LANCZOS resampling mixes
  pixels) is a parameter of the model, the record \<open>raster\<close>: every theorem
  holds for every such library. What the library and the operating system raise is part
  of the model: \<^verbatim>\<open>Image.new\<close> refuses a negative width or height, \<^verbatim>\<open>resize\<close>
  refuses a target below one pixel, writing a file needs its directory.
  Memory limits are not modelled.
\<close>

subsection \<open>Python numbers\<close>

text \<open>
  The table of icon sizes mixes \<^verbatim>\<open>int\<close> and \<^verbatim>\<open>float\<close> (\<^verbatim>\<open>83.5\<close>). A float is
  represented by the rational it denotes; products are exact in the model, as they are
  in binary floating point for the dyadic values the script computes with
  (\<^verbatim>\<open>83.5 * 2\<close>, \<^verbatim>\<open>size / 1024\<close>, \<^verbatim>\<open>380 * s\<close>).
\<close>

datatype pynum = PyInt int | PyFloat rat

fun numval :: "pynum \<Rightarrow> rat" where
  "numval (PyInt i) = of_int i"
| "numval (PyFloat q) = q"

text \<open>\<^verbatim>\<open>a * b\<close>: an int when both are ints, a float otherwise.\<close>

fun py_mul :: "pynum \<Rightarrow> pynum \<Rightarrow> pynum" where
  "py_mul (PyInt a) (PyInt b) = PyInt (a * b)"
| "py_mul a b = PyFloat (numval a * numval b)"

text \<open>\<^verbatim>\<open>int(x)\<close> of a float truncates towards zero.\<close>

definition trunc :: "rat \<Rightarrow> int" where
  "trunc q = (if 0 \<le> q then \<lfloor>q\<rfloor> else \<lceil>q\<rceil>)"

fun py_int :: "pynum \<Rightarrow> int" where
  "py_int (PyInt i) = i"
| "py_int (PyFloat q) = trunc q"

text \<open>\<^verbatim>\<open>x in xs\<close> compares with \<^verbatim>\<open>==\<close>, which is by value across int and float.\<close>

definition py_in :: "pynum \<Rightarrow> pynum list \<Rightarrow> bool" where
  "py_in x xs = (numval x \<in> set (map numval xs))"

text \<open>
  \<^verbatim>\<open>str\<close>, as the f-strings apply it. An int prints in decimal. A float prints its
  integer part, a point and its decimal expansion (at least one digit); this is what
  \<^verbatim>\<open>repr\<close> gives for a float whose decimal expansion is finite and at most 15
  significant digits long, between \<^verbatim>\<open>1e-4\<close> and \<^verbatim>\<open>1e16\<close> in magnitude.
\<close>

definition digit_char :: "nat \<Rightarrow> char" where
  "digit_char d = ''0123456789'' ! d"

fun str_nat :: "nat \<Rightarrow> string" where
  "str_nat n = (if n < 10 then [digit_char n] else str_nat (n div 10) @ [digit_char (n mod 10)])"

declare str_nat.simps [simp del]

definition str_int :: "int \<Rightarrow> string" where
  "str_int i = (if i < 0 then ''-'' @ str_nat (nat (- i)) else str_nat (nat i))"

fun frac_digits :: "nat \<Rightarrow> rat \<Rightarrow> string" where
  "frac_digits 0 q = []"
| "frac_digits (Suc fuel) q =
     (let d = \<lfloor>q * 10\<rfloor>; r = q * 10 - of_int d
      in digit_char (nat d) # (if r = 0 then [] else frac_digits fuel r))"

definition str_float :: "rat \<Rightarrow> string" where
  "str_float q =
     (let a = \<bar>q\<bar>; w = \<lfloor>a\<rfloor>
      in (if q < 0 then ''-'' else '''') @ str_nat (nat w) @ ''.'' @ frac_digits 17 (a - of_int w))"

fun py_str :: "pynum \<Rightarrow> string" where
  "py_str (PyInt i) = str_int i"
| "py_str (PyFloat q) = str_float q"

subsection \<open>Images, the drawing library and the world\<close>

text \<open>A colour is the colour specifier handed to the library, such as \<^verbatim>\<open>#0f172a\<close>.\<close>

type_synonym colour = string

record image =
  mode :: string
  width :: int
  height :: int
  pixel :: "int \<times> int \<Rightarrow> colour"

definition in_image :: "image \<Rightarrow> int \<times> int \<Rightarrow> bool" where
  "in_image im p = (0 \<le> fst p \<and> fst p < width im \<and> 0 \<le> snd p \<and> snd p < height im)"

text \<open>The two drawing calls of the script, with the arguments they are given.\<close>

datatype draw_op =
  is_Line: Line "(rat \<times> rat) list" colour int
| is_Ellipse: Ellipse "rat list" colour

fun ink :: "draw_op \<Rightarrow> colour" where
  "ink (Line xy fill w) = fill"
| "ink (Ellipse xy fill) = fill"

text \<open>
  The part of the imaging library that the script does not determine: which pixels a
  drawing call covers, and the value of each pixel of a resampled image.
\<close>

record raster =
  covers :: "draw_op \<Rightarrow> int \<times> int \<Rightarrow> bool"
  lanczos :: "image \<Rightarrow> int \<times> int \<Rightarrow> int \<times> int \<Rightarrow> colour"

text \<open>
  A drawing call with a solid fill overwrites the pixels it covers, inside the image,
  with the fill colour; the library's \<^verbatim>\<open>ImageDraw\<close> does not blend.
\<close>

definition paint :: "raster \<Rightarrow> draw_op \<Rightarrow> image \<Rightarrow> image" where
  "paint R op im =
     im\<lparr>pixel := (\<lambda>p. if in_image im p \<and> covers R op p then ink op else pixel im p)\<rparr>"

datatype error = ValueError | OSError

datatype json =
  JStr string
| JInt int
| JList "json list"
| JObj "(string \<times> json) list"

datatype content = PNG image | JSON json

text \<open>
  The world the script runs in: the image objects it has allocated (an image is referred
  to by its index), the drawing calls made so far with the image each one draws on, the
  directories and files below the working directory, the files written so far in order,
  and the lines printed.
\<close>

record world =
  heap :: "image list"
  calls :: "(nat \<times> draw_op) list"
  dirs :: "string set"
  files :: "string \<rightharpoonup> content"
  journal :: "(string \<times> content) list"
  stdout :: "string list"

definition and_then :: "error + 'a \<Rightarrow> ('a \<Rightarrow> error + 'b) \<Rightarrow> error + 'b" where
  "and_then r f = (case r of Inl e \<Rightarrow> Inl e | Inr x \<Rightarrow> f x)"

text \<open>\<^verbatim>\<open>Image.new(mode, size, color)\<close>: a fresh image filled with the colour.\<close>

definition Image_new :: "string \<Rightarrow> int \<times> int \<Rightarrow> colour \<Rightarrow> world \<Rightarrow> error + (nat \<times> world)" where
  "Image_new m sz c w =
     (if fst sz < 0 \<or> snd sz < 0 then Inl ValueError
      else Inr (length (heap w),
                w\<lparr>heap := heap w @ [\<lparr>mode = m, width = fst sz, height = snd sz, pixel = (\<lambda>p. c)\<rparr>]\<rparr>))"

text \<open>\<^verbatim>\<open>draw.line\<close> and \<^verbatim>\<open>draw.ellipse\<close> change the image that \<^verbatim>\<open>draw\<close> was made for.\<close>

definition draw :: "raster \<Rightarrow> nat \<Rightarrow> draw_op \<Rightarrow> world \<Rightarrow> world" where
  "draw R img op w =
     w\<lparr>heap := (heap w)[img := paint R op (heap w ! img)], calls := calls w @ [(img, op)]\<rparr>"

definition draw_line :: "raster \<Rightarrow> nat \<Rightarrow> (rat \<times> rat) list \<Rightarrow> colour \<Rightarrow> int \<Rightarrow> world \<Rightarrow> world" where
  "draw_line R img xy fill wd w = draw R img (Line xy fill wd) w"

definition draw_ellipse :: "raster \<Rightarrow> nat \<Rightarrow> rat list \<Rightarrow> colour \<Rightarrow> world \<Rightarrow> world" where
  "draw_ellipse R img xy fill w = draw R img (Ellipse xy fill) w"

subsection \<open>\<^verbatim>\<open>create_icon\<close>\<close>

definition bonds :: "((int \<times> int) \<times> (int \<times> int)) list" where
  "bonds =
    [((380, 360), (450, 340)),
     ((574, 340), (644, 360)),
     ((340, 470), (380, 540)),
     ((684, 470), (644, 540)),
     ((460, 640), (500, 720)),
     ((564, 640), (524, 720)),
     ((470, 580), (554, 580))]"

definition circles :: "(int \<times> int \<times> int) list" where
  "circles =
    [(320, 400, 80),
     (512, 320, 80),
     (704, 400, 80),
     (400, 600, 80),
     (624, 600, 80),
     (512, 780, 80)]"

definition accent :: colour where
  "accent = ''#22d3a8''"

definition inner_r :: int where
  "inner_r = 32"

text \<open>The three loops of \<^verbatim>\<open>create_icon\<close>, each a fold over its table.\<close>

definition draw_bonds :: "raster \<Rightarrow> nat \<Rightarrow> rat \<Rightarrow> int \<Rightarrow> world \<Rightarrow> world" where
  "draw_bonds R img s line_width w =
     fold (\<lambda>((x1, y1), (x2, y2)).
             draw_line R img
               [(of_int x1 * s, of_int y1 * s), (of_int x2 * s, of_int y2 * s)]
               accent line_width)
          bonds w"

definition draw_outer :: "raster \<Rightarrow> nat \<Rightarrow> rat \<Rightarrow> world \<Rightarrow> world" where
  "draw_outer R img s w =
     fold (\<lambda>(cx, cy, r).
             let x0 = of_int (cx - r) * s;
                 y0 = of_int (cy - r) * s;
                 x1 = of_int (cx + r) * s;
                 y1 = of_int (cy + r) * s
             in draw_ellipse R img [x0, y0, x1, y1] accent)
          circles w"

definition draw_inner :: "raster \<Rightarrow> nat \<Rightarrow> rat \<Rightarrow> world \<Rightarrow> world" where
  "draw_inner R img s w =
     fold (\<lambda>(cx, cy, _).
             let x0 = of_int (cx - inner_r) * s;
                 y0 = of_int (cy - inner_r) * s;
                 x1 = of_int (cx + inner_r) * s;
                 y1 = of_int (cy + inner_r) * s
             in draw_ellipse R img [x0, y0, x1, y1] ''#0f172a'')
          circles w"

definition create_icon :: "raster \<Rightarrow> int \<Rightarrow> world \<Rightarrow> error + (nat \<times> world)" where
  "create_icon R sz w =
     and_then (Image_new ''RGB'' (sz, sz) ''#0f172a'' w) (\<lambda>(img, w).
       let s = of_int sz / 1024;
           line_width = trunc (24 * s);
           w = draw_bonds R img s line_width w;
           w = draw_outer R img s w;
           w = draw_inner R img s w
       in Inr (img, w))"

subsection \<open>Files\<close>

text \<open>
  Paths are relative to the working directory, which is the directory with the empty
  name and always exists. \<open>dirname\<close> is the part of a path before its last slash.
\<close>

definition dirname :: "string \<Rightarrow> string" where
  "dirname p = rev (drop 1 (dropWhile (\<lambda>c. c \<noteq> CHR ''/'') (rev p)))"

definition ancestors :: "string \<Rightarrow> string list" where
  "ancestors p = map (\<lambda>i. take i p) (filter (\<lambda>i. p ! i = CHR ''/'') [0..<length p])"

text \<open>
  Opening a file for writing and writing it: fails when the directory of the path does
  not exist or the path is a directory; otherwise the file holds the new content.
\<close>

definition write_file :: "string \<Rightarrow> content \<Rightarrow> world \<Rightarrow> error + world" where
  "write_file p c w =
     (if (dirname p \<noteq> [] \<and> dirname p \<notin> dirs w) \<or> p \<in> dirs w then Inl OSError
      else Inr (w\<lparr>files := (files w)(p \<mapsto> c), journal := journal w @ [(p, c)]\<rparr>))"

text \<open>
  \<^verbatim>\<open>os.makedirs(p, exist_ok=True)\<close>: creates the directory and the directories above
  it; fails when one of them is a regular file.
\<close>

definition makedirs :: "string \<Rightarrow> world \<Rightarrow> error + world" where
  "makedirs p w =
     (if \<exists>q \<in> set (p # ancestors p). files w q \<noteq> None then Inl OSError
      else Inr (w\<lparr>dirs := dirs w \<union> set (p # ancestors p)\<rparr>))"

definition print :: "string \<Rightarrow> world \<Rightarrow> world" where
  "print line w = w\<lparr>stdout := stdout w @ [line]\<rparr>"

text \<open>\<^verbatim>\<open>img.save(path, 'PNG')\<close> writes the image as it is at that moment.\<close>

definition save :: "nat \<Rightarrow> string \<Rightarrow> world \<Rightarrow> error + world" where
  "save img p w = write_file p (PNG (heap w ! img)) w"

text \<open>
  \<^verbatim>\<open>img.resize(size, Image.Resampling.LANCZOS)\<close>: a new image. The library returns a
  copy when the size is the image's own, and refuses a width or height below one.
\<close>

definition resize :: "raster \<Rightarrow> nat \<Rightarrow> int \<times> int \<Rightarrow> world \<Rightarrow> error + (nat \<times> world)" where
  "resize R img sz w =
     (let src = heap w ! img
      in if sz = (width src, height src) then Inr (length (heap w), w\<lparr>heap := heap w @ [src]\<rparr>)
         else if fst sz < 1 \<or> snd sz < 1 then Inl ValueError
         else Inr (length (heap w),
                   w\<lparr>heap := heap w @
                       [\<lparr>mode = mode src, width = fst sz, height = snd sz,
                         pixel = lanczos R src sz\<rparr>]\<rparr>))"

subsection \<open>The script\<close>

definition ios_sizes :: "(pynum \<times> pynum) list" where
  "ios_sizes =
    [(PyInt 20, PyInt 1), (PyInt 20, PyInt 2), (PyInt 20, PyInt 3),
     (PyInt 29, PyInt 1), (PyInt 29, PyInt 2), (PyInt 29, PyInt 3),
     (PyInt 40, PyInt 1), (PyInt 40, PyInt 2), (PyInt 40, PyInt 3),
     (PyInt 60, PyInt 2), (PyInt 60, PyInt 3),
     (PyInt 76, PyInt 1), (PyInt 76, PyInt 2),
     (PyFloat 83.5, PyInt 2),
     (PyInt 1024, PyInt 1)]"

text \<open>\<^verbatim>\<open>contents["images"].append(d)\<close>\<close>

definition images_append :: "json \<Rightarrow> json \<Rightarrow> json" where
  "images_append contents d =
     (case contents of
        JObj kvs \<Rightarrow>
          JObj (map (\<lambda>(k, v). if k = ''images''
                               then (k, case v of JList xs \<Rightarrow> JList (xs @ [d]) | _ \<Rightarrow> v)
                               else (k, v)) kvs)
      | _ \<Rightarrow> contents)"

definition idiom_of :: "pynum \<Rightarrow> string" where
  "idiom_of base_size =
     (if py_in base_size [PyInt 20, PyInt 29, PyInt 40, PyInt 60] then ''iphone''
      else if py_in base_size [PyInt 76, PyFloat 83.5] then ''ipad''
      else ''ios-marketing'')"

text \<open>The body of the loop over \<^verbatim>\<open>ios_sizes\<close>.\<close>

definition export_variant :: "raster \<Rightarrow> pynum \<times> pynum \<Rightarrow> json \<times> world \<Rightarrow> error + (json \<times> world)" where
  "export_variant R e st =
     (case (e, st) of ((base_size, scale), (contents, w)) \<Rightarrow>
        let sz = py_int (py_mul base_size scale);
            filename = ''icon-'' @ py_str base_size @ ''@'' @ py_str scale @ ''x.png''
        in and_then (create_icon R 1024 w) (\<lambda>(icon, w).
           and_then (resize R icon (sz, sz) w) (\<lambda>(icon_resized, w).
           and_then (save icon_resized (''app-store/AppIcon.appiconset/'' @ filename) w) (\<lambda>w.
             let idiom = idiom_of base_size
             in Inr (images_append contents
                       (JObj [(''filename'', JStr filename),
                              (''idiom'', JStr idiom),
                              (''scale'', JStr (py_str scale @ ''x'')),
                              (''size'', JStr (py_str base_size @ ''x'' @ py_str base_size))]),
                     w)))))"

fun export_all :: "raster \<Rightarrow> (pynum \<times> pynum) list \<Rightarrow> json \<times> world \<Rightarrow> error + (json \<times> world)" where
  "export_all R [] st = Inr st"
| "export_all R (e # es) st = and_then (export_variant R e st) (export_all R es)"

definition main :: "raster \<Rightarrow> world \<Rightarrow> error + world" where
  "main R w =
     and_then (create_icon R 1024 w) (\<lambda>(icon, w).
     and_then (save icon ''app-store/icon-1024.png'' w) (\<lambda>w.
     let w = print ''Created app-store/icon-1024.png'' w
     in and_then (makedirs ''app-store/AppIcon.appiconset'' w) (\<lambda>w.
        let contents = JObj [(''images'', JList []),
                             (''info'', JObj [(''author'', JStr ''xcode''), (''version'', JInt 1)])]
        in and_then (export_all R ios_sizes (contents, w)) (\<lambda>(contents, w).
           and_then (write_file ''app-store/AppIcon.appiconset/Contents.json'' (JSON contents) w) (\<lambda>w.
             Inr (print ''Created app-store/AppIcon.appiconset/ with all iOS icon sizes'' w))))))"

subsection \<open>What a run does, in closed form\<close>

text \<open>
  The drawing calls of one \<^verbatim>\<open>create_icon(sz)\<close>, in the order the three loops make
  them, and the image they leave.
\<close>

definition bond_ops :: "rat \<Rightarrow> int \<Rightarrow> draw_op list" where
  "bond_ops s line_width =
     map (\<lambda>((x1, y1), (x2, y2)).
            Line [(of_int x1 * s, of_int y1 * s), (of_int x2 * s, of_int y2 * s)] accent line_width)
         bonds"

definition outer_ops :: "rat \<Rightarrow> draw_op list" where
  "outer_ops s =
     map (\<lambda>(cx, cy, r).
            Ellipse [of_int (cx - r) * s, of_int (cy - r) * s,
                     of_int (cx + r) * s, of_int (cy + r) * s] accent)
         circles"

definition inner_ops :: "rat \<Rightarrow> draw_op list" where
  "inner_ops s =
     map (\<lambda>(cx, cy, _).
            Ellipse [of_int (cx - inner_r) * s, of_int (cy - inner_r) * s,
                     of_int (cx + inner_r) * s, of_int (cy + inner_r) * s] ''#0f172a'')
         circles"

definition icon_ops :: "int \<Rightarrow> draw_op list" where
  "icon_ops sz =
     (let s = of_int sz / 1024
      in bond_ops s (trunc (24 * s)) @ outer_ops s @ inner_ops s)"

definition blank :: "int \<Rightarrow> image" where
  "blank sz = \<lparr>mode = ''RGB'', width = sz, height = sz, pixel = (\<lambda>p. ''#0f172a'')\<rparr>"

definition icon_image :: "raster \<Rightarrow> int \<Rightarrow> image" where
  "icon_image R sz = fold (paint R) (icon_ops sz) (blank sz)"

text \<open>The file name, path, pixel size, manifest entry and image of one table entry.\<close>

definition variant_filename :: "pynum \<times> pynum \<Rightarrow> string" where
  "variant_filename e = ''icon-'' @ py_str (fst e) @ ''@'' @ py_str (snd e) @ ''x.png''"

definition variant_path :: "pynum \<times> pynum \<Rightarrow> string" where
  "variant_path e = ''app-store/AppIcon.appiconset/'' @ variant_filename e"

definition variant_pixels :: "pynum \<times> pynum \<Rightarrow> int" where
  "variant_pixels e = py_int (py_mul (fst e) (snd e))"

definition variant_entry :: "pynum \<times> pynum \<Rightarrow> json" where
  "variant_entry e =
     JObj [(''filename'', JStr (variant_filename e)),
           (''idiom'', JStr (idiom_of (fst e))),
           (''scale'', JStr (py_str (snd e) @ ''x'')),
           (''size'', JStr (py_str (fst e) @ ''x'' @ py_str (fst e)))]"

definition resized :: "raster \<Rightarrow> image \<Rightarrow> int \<Rightarrow> image" where
  "resized R src n =
     (if (n, n) = (width src, height src) then src
      else \<lparr>mode = mode src, width = n, height = n, pixel = lanczos R src (n, n)\<rparr>)"

definition variant_image :: "raster \<Rightarrow> pynum \<times> pynum \<Rightarrow> image" where
  "variant_image R e = resized R (icon_image R 1024) (variant_pixels e)"

definition variant_effect :: "raster \<Rightarrow> pynum \<times> pynum \<Rightarrow> world \<Rightarrow> world" where
  "variant_effect R e w =
     w\<lparr>heap := heap w @ [icon_image R 1024, variant_image R e],
       calls := calls w @ map (Pair (length (heap w))) (icon_ops 1024),
       files := (files w)(variant_path e \<mapsto> PNG (variant_image R e)),
       journal := journal w @ [(variant_path e, PNG (variant_image R e))]\<rparr>"

definition writable :: "world \<Rightarrow> string \<Rightarrow> bool" where
  "writable w p = (\<not> ((dirname p \<noteq> [] \<and> dirname p \<notin> dirs w) \<or> p \<in> dirs w))"

definition manifest_path :: string where
  "manifest_path = ''app-store/AppIcon.appiconset/Contents.json''"

definition manifest :: json where
  "manifest =
     JObj [(''images'', JList (map variant_entry ios_sizes)),
           (''info'', JObj [(''author'', JStr ''xcode''), (''version'', JInt 1)])]"

text \<open>The files one run writes, in order.\<close>

definition written :: "raster \<Rightarrow> (string \<times> content) list" where
  "written R =
     (''app-store/icon-1024.png'', PNG (icon_image R 1024))
     # map (\<lambda>e. (variant_path e, PNG (variant_image R e))) ios_sizes
     @ [(manifest_path, JSON manifest)]"

definition replay :: "(string \<times> content) list \<Rightarrow> (string \<rightharpoonup> content) \<Rightarrow> (string \<rightharpoonup> content)" where
  "replay js f = fold (\<lambda>(p, c) g. g(p \<mapsto> c)) js f"

fun is_png :: "content \<Rightarrow> bool" where
  "is_png (PNG im) = True"
| "is_png (JSON j) = False"

text \<open>Looking a key up in a JSON object.\<close>

fun dict_get :: "json \<Rightarrow> string \<Rightarrow> json option" where
  "dict_get (JObj kvs) k = map_of kvs k"
| "dict_get j k = None"

text \<open>
  The rounding the specification names: to the nearest integer, a half upwards.
\<close>

definition spec_round :: "rat \<Rightarrow> int" where
  "spec_round q = \<lfloor>q + 1 / 2\<rfloor>"

text \<open>What the run needs of the world it starts in.\<close>

definition ready :: "world \<Rightarrow> bool" where
  "ready w =
     (''app-store'' \<in> dirs w \<and> ''app-store/icon-1024.png'' \<notin> dirs w
      \<and> files w ''app-store'' = None \<and> files w ''app-store/AppIcon.appiconset'' = None
      \<and> (\<forall>e \<in> set ios_sizes. variant_path e \<notin> dirs w)
      \<and> manifest_path \<notin> dirs w)"

subsection \<open>A concrete library and a concrete world\<close>

text \<open>
  A crude imaging library, to run the script on: a line or an ellipse covers the box
  spanned by its coordinates, and resampling takes the nearest pixel. The world has the
  directory \<^verbatim>\<open>app-store\<close> and nothing else.
\<close>

fun box_covers :: "draw_op \<Rightarrow> int \<times> int \<Rightarrow> bool" where
  "box_covers (Line [(x0, y0), (x1, y1)] fill wd) (x, y) =
     (min x0 x1 \<le> of_int x \<and> of_int x \<le> max x0 x1 \<and> min y0 y1 \<le> of_int y \<and> of_int y \<le> max y0 y1)"
| "box_covers (Ellipse [x0, y0, x1, y1] fill) (x, y) =
     (x0 \<le> of_int x \<and> of_int x \<le> x1 \<and> y0 \<le> of_int y \<and> of_int y \<le> y1)"
| "box_covers op p = False"

definition box_raster :: raster where
  "box_raster =
     \<lparr>covers = box_covers,
      lanczos = (\<lambda>src sz p. pixel src (fst p * width src div fst sz, snd p * height src div snd sz))\<rparr>"

definition fresh_world :: world where
  "fresh_world =
     \<lparr>heap = [], calls = [], dirs = {''app-store''}, files = (\<lambda>p. None), journal = [], stdout = []\<rparr>"

section \<open>Properties\<close>

subsection \<open>\<^verbatim>\<open>create_icon\<close> in closed form\<close>

lemma draw_fold:
  "img < length (heap w) \<Longrightarrow>
   fold (\<lambda>x. draw R img (f x)) xs w =
     w\<lparr>heap := (heap w)[img := fold (paint R) (map f xs) (heap w ! img)],
       calls := calls w @ map (\<lambda>x. (img, f x)) xs\<rparr>"
proof (induction xs arbitrary: w)
  case Nil
  then show ?case by simp
next
  case (Cons x xs)
  have len: "img < length (heap (draw R img (f x) w))"
    using Cons.prems by (simp add: draw_def)
  show ?case
    using Cons.prems by (simp add: Cons.IH [OF len]) (simp add: draw_def)
qed

lemma draw_bonds_eq:
  assumes a: "img < length (heap w)"
  shows "draw_bonds R img s lw w =
     w\<lparr>heap := (heap w)[img := fold (paint R) (bond_ops s lw) (heap w ! img)],
       calls := calls w @ map (Pair img) (bond_ops s lw)\<rparr>"
proof -
  let ?f = "\<lambda>((x1, y1), (x2, y2)).
            Line [(of_int x1 * s, of_int y1 * s), (of_int x2 * s, of_int y2 * s)] accent lw"
  have "draw_bonds R img s lw w = fold (\<lambda>x. draw R img (?f x)) bonds w"
    unfolding draw_bonds_def draw_line_def
    by (rule arg_cong [where f = "\<lambda>g. fold g bonds w"]) (auto simp: fun_eq_iff)
  then show ?thesis
    by (simp add: draw_fold [OF a] bond_ops_def)
qed

lemma draw_outer_eq:
  assumes a: "img < length (heap w)"
  shows "draw_outer R img s w =
     w\<lparr>heap := (heap w)[img := fold (paint R) (outer_ops s) (heap w ! img)],
       calls := calls w @ map (Pair img) (outer_ops s)\<rparr>"
proof -
  let ?f = "\<lambda>(cx, cy, r).
            Ellipse [of_int (cx - r) * s, of_int (cy - r) * s,
                     of_int (cx + r) * s, of_int (cy + r) * s] accent"
  have "draw_outer R img s w = fold (\<lambda>x. draw R img (?f x)) circles w"
    unfolding draw_outer_def draw_ellipse_def
    by (rule arg_cong [where f = "\<lambda>g. fold g circles w"]) (auto simp: fun_eq_iff)
  then show ?thesis
    by (simp add: draw_fold [OF a] outer_ops_def)
qed

lemma draw_inner_eq:
  assumes a: "img < length (heap w)"
  shows "draw_inner R img s w =
     w\<lparr>heap := (heap w)[img := fold (paint R) (inner_ops s) (heap w ! img)],
       calls := calls w @ map (Pair img) (inner_ops s)\<rparr>"
proof -
  let ?f = "\<lambda>(cx, cy, _ :: int).
            Ellipse [of_int (cx - inner_r) * s, of_int (cy - inner_r) * s,
                     of_int (cx + inner_r) * s, of_int (cy + inner_r) * s] ''#0f172a''"
  have "draw_inner R img s w = fold (\<lambda>x. draw R img (?f x)) circles w"
    unfolding draw_inner_def draw_ellipse_def
    by (rule arg_cong [where f = "\<lambda>g. fold g circles w"]) (auto simp: fun_eq_iff)
  then show ?thesis
    by (simp add: draw_fold [OF a] inner_ops_def)
qed

lemma create_icon_eq:
  "create_icon R sz w =
     (if sz < 0 then Inl ValueError
      else Inr (length (heap w),
                w\<lparr>heap := heap w @ [icon_image R sz],
                  calls := calls w @ map (Pair (length (heap w))) (icon_ops sz)\<rparr>))"
  by (simp add: create_icon_def Image_new_def and_then_def Let_def draw_bonds_eq draw_outer_eq
      draw_inner_eq icon_image_def icon_ops_def blank_def)

lemma paint_shape [simp]:
  "mode (paint R op im) = mode im" "width (paint R op im) = width im"
  "height (paint R op im) = height im"
  by (simp_all add: paint_def)

lemma fold_paint_shape [simp]:
  "mode (fold (paint R) ops im) = mode im \<and> width (fold (paint R) ops im) = width im
   \<and> height (fold (paint R) ops im) = height im"
  by (induction ops arbitrary: im) simp_all

lemma icon_image_shape [simp]:
  "mode (icon_image R sz) = ''RGB''" "width (icon_image R sz) = sz" "height (icon_image R sz) = sz"
  by (simp_all add: icon_image_def blank_def)




subsection \<open>The renderer\<close>

lemma phase_order:
  assumes "\<forall>x \<in> set xs. P x" and "\<forall>y \<in> set ys. \<not> P y"
    and "i < length (xs @ ys)" and "j < length (xs @ ys)"
    and "P ((xs @ ys) ! i)" and "\<not> P ((xs @ ys) ! j)"
  shows "i < j"
proof (rule ccontr)
  assume "\<not> i < j"
  then have ji: "j \<le> i" by simp
  have "j < length xs"
  proof (rule ccontr)
    assume "\<not> j < length xs"
    then have "\<not> i < length xs" using ji by simp
    then have "(xs @ ys) ! i \<in> set ys"
      using assms(3) by (simp add: nth_append)
    then show False using assms(2,5) by blast
  qed
  then have "(xs @ ys) ! j \<in> set xs" by (simp add: nth_append)
  then show False using assms(1,6) by blast
qed








text \<open>
  C8. The drawing calls of one \<open>create_icon\<close> come in three phases: first the bond
  lines, one per bond; then the outer discs in the accent colour, one per circle; then
  the inner discs in the background colour, one per circle. So every line is drawn before
  every disc, and every outer disc before every inner disc.
\<close>

theorem create_icon_draw_order:
  assumes "create_icon R sz w = Inr (img, w')"
  shows "\<exists>lines outers inners.
      calls w' = calls w @ map (Pair img) (lines @ outers @ inners)
    \<and> length lines = length bonds \<and> length outers = length circles
    \<and> length inners = length circles
    \<and> (\<forall>c \<in> set lines. is_Line c)
    \<and> (\<forall>c \<in> set outers. is_Ellipse c \<and> ink c = accent)
    \<and> (\<forall>c \<in> set inners. is_Ellipse c \<and> ink c = ''#0f172a'')
    \<and> (\<forall>i j. i < length (lines @ outers @ inners) \<and> j < length (lines @ outers @ inners)
          \<and> is_Line ((lines @ outers @ inners) ! i) \<and> is_Ellipse ((lines @ outers @ inners) ! j)
          \<longrightarrow> i < j)
    \<and> (\<forall>i j. i < length (lines @ outers @ inners) \<and> j < length (lines @ outers @ inners)
          \<and> ink ((lines @ outers @ inners) ! i) = accent
          \<and> ink ((lines @ outers @ inners) ! j) = ''#0f172a''
          \<longrightarrow> i < j)"
proof -
  define s :: rat where "s = of_int sz / 1024"
  define lines where "lines = bond_ops s (trunc (24 * s))"
  define outers where "outers = outer_ops s"
  define inners where "inners = inner_ops s"
  have ops: "icon_ops sz = lines @ outers @ inners"
    by (simp add: icon_ops_def Let_def lines_def outers_def inners_def s_def)
  have nonneg: "\<not> sz < 0" and img: "img = length (heap w)"
    and w': "calls w' = calls w @ map (Pair (length (heap w))) (icon_ops sz)"
    using assms by (auto simp: create_icon_eq split: if_splits)
  have l: "\<forall>c \<in> set lines. is_Line c \<and> ink c = accent"
    by (auto simp: lines_def bond_ops_def)
  have o: "\<forall>c \<in> set outers. is_Ellipse c \<and> ink c = accent"
    by (auto simp: outers_def outer_ops_def)
  have n: "\<forall>c \<in> set inners. is_Ellipse c \<and> ink c = ''#0f172a''"
    by (auto simp: inners_def inner_ops_def)
  have ne: "accent \<noteq> ''#0f172a''" by (simp add: accent_def)
  have ord1: "i < j"
    if "i < length (lines @ outers @ inners)" "j < length (lines @ outers @ inners)"
       "is_Line ((lines @ outers @ inners) ! i)" "is_Ellipse ((lines @ outers @ inners) ! j)"
    for i j
  proof (rule phase_order [where P = is_Line and xs = lines and ys = "outers @ inners"])
    show "\<forall>x \<in> set lines. is_Line x" using l by blast
    show "\<forall>y \<in> set (outers @ inners). \<not> is_Line y"
      using o n by (auto simp: draw_op.disc_eq_case split: draw_op.splits)
    show "\<not> is_Line ((lines @ outers @ inners) ! j)"
      using that(4) by (auto simp: draw_op.disc_eq_case split: draw_op.splits)
  qed (use that in simp_all)
  have ord2: "i < j"
    if "i < length (lines @ outers @ inners)" "j < length (lines @ outers @ inners)"
       "ink ((lines @ outers @ inners) ! i) = accent"
       "ink ((lines @ outers @ inners) ! j) = ''#0f172a''"
    for i j
  proof (rule phase_order [where P = "\<lambda>c. ink c = accent" and xs = "lines @ outers" and ys = inners])
    show "\<forall>x \<in> set (lines @ outers). ink x = accent" using l o by auto
    show "\<forall>y \<in> set inners. ink y \<noteq> accent" using n ne by auto
    show "ink (((lines @ outers) @ inners) ! j) \<noteq> accent" using that(4) ne by simp
  qed (use that in simp_all)
  have lens: "length lines = length bonds" "length outers = length circles"
    "length inners = length circles"
    by (simp_all add: lines_def outers_def inners_def bond_ops_def outer_ops_def inner_ops_def)
  have c1: "calls w' = calls w @ map (Pair img) (lines @ outers @ inners)"
    using w' img ops by simp
  have l': "\<forall>c \<in> set lines. is_Line c" using l by blast
  have o1: "\<forall>i j. i < length (lines @ outers @ inners) \<and> j < length (lines @ outers @ inners)
          \<and> is_Line ((lines @ outers @ inners) ! i) \<and> is_Ellipse ((lines @ outers @ inners) ! j)
          \<longrightarrow> i < j"
    using ord1 by blast
  have o2: "\<forall>i j. i < length (lines @ outers @ inners) \<and> j < length (lines @ outers @ inners)
          \<and> ink ((lines @ outers @ inners) ! i) = accent
          \<and> ink ((lines @ outers @ inners) ! j) = ''#0f172a''
          \<longrightarrow> i < j"
    using ord2 by blast
  show ?thesis
    by (rule exI [of _ lines], rule exI [of _ outers], rule exI [of _ inners])
       (intro conjI c1 lens l' o n o1 o2)
qed

theorem create_icon_draw_order_witness:
  "\<exists>img w' lines outers inners.
      create_icon box_raster 8 fresh_world = Inr (img, w')
    \<and> calls w' = calls fresh_world @ map (Pair img) (lines @ outers @ inners)
    \<and> length lines = 7 \<and> length outers = 6 \<and> length inners = 6
    \<and> (\<forall>c \<in> set lines. is_Line c)
    \<and> (\<forall>c \<in> set outers. is_Ellipse c \<and> ink c = accent)
    \<and> (\<forall>c \<in> set inners. is_Ellipse c \<and> ink c = ''#0f172a'')"
proof -
  obtain img w' where r: "create_icon box_raster 8 fresh_world = Inr (img, w')"
    by (simp add: create_icon_eq)
  from create_icon_draw_order [OF r] obtain lines outers inners where
    "calls w' = calls fresh_world @ map (Pair img) (lines @ outers @ inners)"
    "length lines = length bonds" "length outers = length circles"
    "length inners = length circles"
    "\<forall>c \<in> set lines. is_Line c"
    "\<forall>c \<in> set outers. is_Ellipse c \<and> ink c = accent"
    "\<forall>c \<in> set inners. is_Ellipse c \<and> ink c = ''#0f172a''"
    by blast
  moreover have "length bonds = 7" "length circles = 6"
    by (simp_all add: bonds_def circles_def)
  ultimately show ?thesis using r by metis
qed

subsection \<open>The export in closed form\<close>

lemma export_variant_eq:
  "export_variant R e (c, w) =
     (if variant_pixels e < 1 then Inl ValueError
      else if \<not> writable w (variant_path e) then Inl OSError
      else Inr (images_append c (variant_entry e), variant_effect R e w))"
  by (cases e)
     (simp add: export_variant_def create_icon_eq and_then_def resize_def save_def write_file_def
       Let_def variant_pixels_def variant_path_def variant_filename_def variant_entry_def
       variant_image_def variant_effect_def resized_def writable_def nth_append)

lemma variant_effect_dirs [simp]: "dirs (variant_effect R e w) = dirs w"
  by (simp add: variant_effect_def)

lemma variant_effect_stdout [simp]: "stdout (variant_effect R e w) = stdout w"
  by (simp add: variant_effect_def)

lemma variant_effect_writable [simp]: "writable (variant_effect R e w) p = writable w p"
  by (simp add: writable_def)

lemma export_all_Inr:
  "export_all R es (c, w) = Inr (c', w') \<Longrightarrow>
   c' = fold (\<lambda>e c. images_append c (variant_entry e)) es c \<and> w' = fold (variant_effect R) es w"
proof (induction es arbitrary: c w)
  case Nil
  then show ?case by simp
next
  case (Cons e es)
  then show ?case
    by (simp add: and_then_def export_variant_eq split: if_splits)
qed

lemma export_all_Inr_ok:
  "export_all R es (c, w) = Inr (c', w') \<Longrightarrow>
   \<forall>e \<in> set es. 1 \<le> variant_pixels e \<and> writable w (variant_path e)"
proof (induction es arbitrary: c w)
  case Nil
  then show ?case by simp
next
  case (Cons e es)
  then show ?case
    by (fastforce simp: and_then_def export_variant_eq split: if_splits)
qed

lemma export_all_ok:
  "\<forall>e \<in> set es. 1 \<le> variant_pixels e \<and> writable w (variant_path e) \<Longrightarrow>
   export_all R es (c, w) =
     Inr (fold (\<lambda>e c. images_append c (variant_entry e)) es c, fold (variant_effect R) es w)"
proof (induction es arbitrary: c w)
  case Nil
  then show ?case by simp
next
  case (Cons e es)
  have "\<forall>x \<in> set es. 1 \<le> variant_pixels x \<and> writable (variant_effect R e w) (variant_path x)"
    using Cons.prems by simp
  from Cons.IH [OF this] show ?case
    using Cons.prems by (simp add: and_then_def export_variant_eq)
qed

lemma fold_variant_effect:
  "journal (fold (variant_effect R) es w) =
     journal w @ map (\<lambda>e. (variant_path e, PNG (variant_image R e))) es
   \<and> files (fold (variant_effect R) es w) =
     replay (map (\<lambda>e. (variant_path e, PNG (variant_image R e))) es) (files w)
   \<and> dirs (fold (variant_effect R) es w) = dirs w
   \<and> stdout (fold (variant_effect R) es w) = stdout w"
proof (induction es arbitrary: w)
  case Nil
  then show ?case by (simp add: replay_def)
next
  case (Cons e es)
  show ?case
    by (simp add: Cons.IH) (simp add: variant_effect_def replay_def)
qed

lemma fold_images_append:
  "fold (\<lambda>e c. images_append c (variant_entry e)) es
     (JObj [(''images'', JList xs), (''info'', i)]) =
   JObj [(''images'', JList (xs @ map variant_entry es)), (''info'', i)]"
  by (induction es arbitrary: xs) (simp_all add: images_append_def)

lemma replay_append: "replay (js @ ks) f = replay ks (replay js f)"
  by (simp add: replay_def)

lemma replay_Cons: "replay ((p, c) # js) f = replay js (f(p \<mapsto> c))"
  by (simp add: replay_def)

lemma replay_other: "p \<notin> fst ` set js \<Longrightarrow> replay js f p = f p"
  by (induction js arbitrary: f) (auto simp: replay_def)

lemma replay_written:
  "distinct (map fst js) \<Longrightarrow> (p, c) \<in> set js \<Longrightarrow> replay js f p = Some c"
proof (induction js arbitrary: f)
  case Nil
  then show ?case by simp
next
  case (Cons j js)
  obtain q d where j: "j = (q, d)" by (cases j)
  show ?case
  proof (cases "(p, c) = j")
    case True
    have "fst j \<notin> set (map fst js)" using Cons.prems(1) by simp
    moreover have "fst j = p" using True by auto
    ultimately have "p \<notin> fst ` set js" by simp
    then show ?thesis using True j by (simp add: replay_Cons replay_other)
  next
    case False
    then have "(p, c) \<in> set js" using Cons.prems(2) by simp
    moreover have "distinct (map fst js)" using Cons.prems(1) by simp
    ultimately show ?thesis using Cons.IH j by (simp add: replay_Cons)
  qed
qed

text \<open>Facts about the table, by evaluation.\<close>

lemma ios_sizes_pixels: "\<forall>e \<in> set ios_sizes. 1 \<le> variant_pixels e"
  by code_simp

lemma ios_sizes_dirname:
  "\<forall>e \<in> set ios_sizes. dirname (variant_path e) = ''app-store/AppIcon.appiconset''"
  by code_simp

lemma ios_sizes_paths:
  "map variant_path ios_sizes =
    [''app-store/AppIcon.appiconset/icon-20@1x.png'',
     ''app-store/AppIcon.appiconset/icon-20@2x.png'',
     ''app-store/AppIcon.appiconset/icon-20@3x.png'',
     ''app-store/AppIcon.appiconset/icon-29@1x.png'',
     ''app-store/AppIcon.appiconset/icon-29@2x.png'',
     ''app-store/AppIcon.appiconset/icon-29@3x.png'',
     ''app-store/AppIcon.appiconset/icon-40@1x.png'',
     ''app-store/AppIcon.appiconset/icon-40@2x.png'',
     ''app-store/AppIcon.appiconset/icon-40@3x.png'',
     ''app-store/AppIcon.appiconset/icon-60@2x.png'',
     ''app-store/AppIcon.appiconset/icon-60@3x.png'',
     ''app-store/AppIcon.appiconset/icon-76@1x.png'',
     ''app-store/AppIcon.appiconset/icon-76@2x.png'',
     ''app-store/AppIcon.appiconset/icon-83.5@2x.png'',
     ''app-store/AppIcon.appiconset/icon-1024@1x.png'']"
  by code_simp

lemma written_paths_distinct: "distinct (map fst (written R))"
proof -
  have "map fst (written R) =
      ''app-store/icon-1024.png'' # map variant_path ios_sizes @ [manifest_path]"
    by (simp add: written_def comp_def)
  moreover have
    "distinct (''app-store/icon-1024.png'' # map variant_path ios_sizes @ [manifest_path])"
    by code_simp
  ultimately show ?thesis by simp
qed

lemma main_dirnames:
  "dirname ''app-store/icon-1024.png'' = ''app-store''"
  "dirname manifest_path = ''app-store/AppIcon.appiconset''"
  "ancestors ''app-store/AppIcon.appiconset'' = [''app-store'']"
  by code_simp+

lemma and_then_Inr: "and_then r f = Inr y \<longleftrightarrow> (\<exists>x. r = Inr x \<and> f x = Inr y)"
  by (cases r) (simp_all add: and_then_def)

lemma ios_sizes_not_dirs:
  "\<forall>e \<in> set ios_sizes. variant_path e \<noteq> ''app-store/AppIcon.appiconset''
      \<and> variant_path e \<noteq> ''app-store'' \<and> variant_path e \<noteq> ''app-store/icon-1024.png''
      \<and> variant_path e \<noteq> manifest_path"
  by code_simp

lemma manifest_path_not_dirs:
  "manifest_path \<noteq> ''app-store/AppIcon.appiconset''" "manifest_path \<noteq> ''app-store''"
  "manifest_path \<noteq> ''app-store/icon-1024.png''"
  by code_simp+

lemma main_Inr:
  assumes "main R w = Inr w'"
  shows "journal w' = journal w @ written R"
    and "files w' = replay (written R) (files w)"
    and "dirs w' = dirs w \<union> {''app-store/AppIcon.appiconset'', ''app-store''}"
    and "stdout w' = stdout w @ [''Created app-store/icon-1024.png'',
           ''Created app-store/AppIcon.appiconset/ with all iOS icon sizes'']"
    and "ready w"
proof -
  define w1 where "w1 = w\<lparr>heap := heap w @ [icon_image R 1024],
      calls := calls w @ map (Pair (length (heap w))) (icon_ops 1024)\<rparr>"
  define w2 where "w2 = w1\<lparr>files := (files w1)(''app-store/icon-1024.png'' \<mapsto> PNG (icon_image R 1024)),
      journal := journal w1 @ [(''app-store/icon-1024.png'', PNG (icon_image R 1024))]\<rparr>"
  define w3 where "w3 = print ''Created app-store/icon-1024.png'' w2"
  define w4 where "w4 = w3\<lparr>dirs := dirs w3 \<union> {''app-store/AppIcon.appiconset'', ''app-store''}\<rparr>"
  define c0 where "c0 = JObj [(''images'', JList []),
      (''info'', JObj [(''author'', JStr ''xcode''), (''version'', JInt 1)])]"
  have ci: "create_icon R 1024 w = Inr (length (heap w), w1)"
    by (simp add: create_icon_eq w1_def)
  from assms obtain v2 where s1: "save (length (heap w)) ''app-store/icon-1024.png'' w1 = Inr v2"
    and r2: "and_then (makedirs ''app-store/AppIcon.appiconset'' (print ''Created app-store/icon-1024.png'' v2))
       (\<lambda>w. and_then (export_all R ios_sizes (c0, w)) (\<lambda>(contents, w).
           and_then (write_file ''app-store/AppIcon.appiconset/Contents.json'' (JSON contents) w) (\<lambda>w.
             Inr (print ''Created app-store/AppIcon.appiconset/ with all iOS icon sizes'' w))))
       = Inr w'"
    unfolding main_def c0_def by (auto simp: and_then_Inr ci Let_def)
  have wr1: "writable w ''app-store/icon-1024.png''" and v2: "v2 = w2"
    using s1 by (auto simp: save_def write_file_def writable_def w2_def w1_def split: if_splits)
  from r2 obtain v4 where m: "makedirs ''app-store/AppIcon.appiconset'' w3 = Inr v4"
    and r4: "and_then (export_all R ios_sizes (c0, v4)) (\<lambda>(contents, w).
           and_then (write_file ''app-store/AppIcon.appiconset/Contents.json'' (JSON contents) w) (\<lambda>w.
             Inr (print ''Created app-store/AppIcon.appiconset/ with all iOS icon sizes'' w)))
       = Inr w'"
    unfolding v2 w3_def by (auto simp: and_then_Inr)
  have nofile: "files w3 ''app-store/AppIcon.appiconset'' = None" "files w3 ''app-store'' = None"
    and v4: "v4 = w4"
    using m by (auto simp: makedirs_def main_dirnames w4_def split: if_splits)
  from r4 obtain c5 w5 where e: "export_all R ios_sizes (c0, w4) = Inr (c5, w5)"
    and r5: "and_then (write_file ''app-store/AppIcon.appiconset/Contents.json'' (JSON c5) w5) (\<lambda>w.
             Inr (print ''Created app-store/AppIcon.appiconset/ with all iOS icon sizes'' w))
       = Inr w'"
    unfolding v4 by (auto simp: and_then_Inr)
  from export_all_Inr [OF e] have c5: "c5 = manifest" and w5: "w5 = fold (variant_effect R) ios_sizes w4"
    by (simp_all add: c0_def fold_images_append manifest_def)
  from r5 obtain w6 where wf: "write_file manifest_path (JSON manifest) w5 = Inr w6"
    and w': "w' = print ''Created app-store/AppIcon.appiconset/ with all iOS icon sizes'' w6"
    by (auto simp: and_then_Inr c5 manifest_path_def)
  have wr6: "writable w5 manifest_path"
    and w6: "w6 = w5\<lparr>files := (files w5)(manifest_path \<mapsto> JSON manifest),
        journal := journal w5 @ [(manifest_path, JSON manifest)]\<rparr>"
    using wf by (auto simp: write_file_def writable_def split: if_splits)
  note f = fold_variant_effect [of R ios_sizes w4]
  have j5: "journal w5 = journal w4 @ map (\<lambda>e. (variant_path e, PNG (variant_image R e))) ios_sizes"
    and f5: "files w5 = replay (map (\<lambda>e. (variant_path e, PNG (variant_image R e))) ios_sizes) (files w4)"
    and d5: "dirs w5 = dirs w4" and o5: "stdout w5 = stdout w4"
    using f by (simp_all add: w5)
  have j4: "journal w4 = journal w @ [(''app-store/icon-1024.png'', PNG (icon_image R 1024))]"
    and f4: "files w4 = (files w)(''app-store/icon-1024.png'' \<mapsto> PNG (icon_image R 1024))"
    and d4: "dirs w4 = dirs w \<union> {''app-store/AppIcon.appiconset'', ''app-store''}"
    and o4: "stdout w4 = stdout w @ [''Created app-store/icon-1024.png'']"
    by (simp_all add: w4_def w3_def print_def w2_def w1_def)
  show "journal w' = journal w @ written R"
    by (simp add: w' print_def w6 j5 j4 written_def)
  show "files w' = replay (written R) (files w)"
    by (simp add: w' print_def w6 f5 f4 written_def replay_Cons replay_append)
       (simp add: replay_def)
  show "dirs w' = dirs w \<union> {''app-store/AppIcon.appiconset'', ''app-store''}"
    by (simp add: w' print_def w6 d5 d4)
  show "stdout w' = stdout w @ [''Created app-store/icon-1024.png'',
           ''Created app-store/AppIcon.appiconset/ with all iOS icon sizes'']"
    by (simp add: w' print_def w6 o5 o4)
  have ok: "\<forall>e \<in> set ios_sizes. writable w4 (variant_path e)"
    using export_all_Inr_ok [OF e] by blast
  have "''app-store'' \<in> dirs w" "''app-store/icon-1024.png'' \<notin> dirs w"
    using wr1 by (auto simp: writable_def main_dirnames)
  moreover have "files w ''app-store'' = None" "files w ''app-store/AppIcon.appiconset'' = None"
    using nofile by (auto simp: w3_def print_def w2_def w1_def split: if_splits)
  moreover have "\<forall>e \<in> set ios_sizes. variant_path e \<notin> dirs w"
    using ok by (auto simp: writable_def d4)
  moreover have "manifest_path \<notin> dirs w"
    using wr6 by (auto simp: writable_def d5 d4)
  ultimately show "ready w" by (simp add: ready_def)
qed

lemma main_ok:
  assumes "ready w"
  shows "\<exists>w'. main R w = Inr w'"
proof -
  define w1 where "w1 = w\<lparr>heap := heap w @ [icon_image R 1024],
      calls := calls w @ map (Pair (length (heap w))) (icon_ops 1024)\<rparr>"
  define w2 where "w2 = w1\<lparr>files := (files w1)(''app-store/icon-1024.png'' \<mapsto> PNG (icon_image R 1024)),
      journal := journal w1 @ [(''app-store/icon-1024.png'', PNG (icon_image R 1024))]\<rparr>"
  define w3 where "w3 = print ''Created app-store/icon-1024.png'' w2"
  define w4 where "w4 = w3\<lparr>dirs := dirs w3 \<union> {''app-store/AppIcon.appiconset'', ''app-store''}\<rparr>"
  define c0 where "c0 = JObj [(''images'', JList []),
      (''info'', JObj [(''author'', JStr ''xcode''), (''version'', JInt 1)])]"
  define w5 where "w5 = fold (variant_effect R) ios_sizes w4"
  have d4: "dirs w4 = dirs w \<union> {''app-store/AppIcon.appiconset'', ''app-store''}"
    by (simp add: w4_def w3_def print_def w2_def w1_def)
  have ci: "create_icon R 1024 w = Inr (length (heap w), w1)"
    by (simp add: create_icon_eq w1_def)
  have s1: "save (length (heap w)) ''app-store/icon-1024.png'' w1 = Inr w2"
    using assms by (simp add: save_def write_file_def main_dirnames ready_def w1_def w2_def)
  have m: "makedirs ''app-store/AppIcon.appiconset'' w3 = Inr w4"
    using assms
    by (simp add: makedirs_def main_dirnames ready_def w4_def w3_def print_def w2_def w1_def)
  have "\<forall>e \<in> set ios_sizes. 1 \<le> variant_pixels e \<and> writable w4 (variant_path e)"
    using assms ios_sizes_pixels ios_sizes_dirname ios_sizes_not_dirs
    by (auto simp: writable_def d4 ready_def)
  from export_all_ok [OF this]
  have e: "export_all R ios_sizes (c0, w4) = Inr (manifest, w5)"
    by (simp add: c0_def fold_images_append manifest_def w5_def)
  have "dirs w5 = dirs w4"
    using fold_variant_effect [of R ios_sizes w4] by (simp add: w5_def)
  then have "writable w5 manifest_path"
    using assms manifest_path_not_dirs by (auto simp: writable_def d4 ready_def main_dirnames)
  then have wf: "\<exists>w6. write_file ''app-store/AppIcon.appiconset/Contents.json'' (JSON manifest) w5 = Inr w6"
    by (simp add: write_file_def writable_def manifest_path_def)
  show ?thesis
    unfolding main_def Let_def
    using wf by (auto simp: and_then_def ci s1 m e w3_def [symmetric] c0_def [symmetric])
qed

lemma main_ready_again:
  assumes "main R w = Inr w'"
  shows "ready w'"
proof -
  note r = main_Inr [OF assms]
  have a: "\<forall>e \<in> set ios_sizes. (variant_path e, PNG (variant_image R e)) \<in> set (written R)"
    by (simp add: written_def)
  have "''app-store'' \<notin> fst ` set (written R)"
       "''app-store/AppIcon.appiconset'' \<notin> fst ` set (written R)"
    using ios_sizes_not_dirs manifest_path_not_dirs by (auto simp: written_def)
  then have "files w' ''app-store'' = None" "files w' ''app-store/AppIcon.appiconset'' = None"
    using r(5) by (simp_all add: r(2) replay_other ready_def)
  moreover have "''app-store'' \<in> dirs w'" by (simp add: r(3))
  moreover have "''app-store/icon-1024.png'' \<notin> dirs w'"
    using r(5) by (simp add: r(3) ready_def)
  moreover have "\<forall>e \<in> set ios_sizes. variant_path e \<notin> dirs w'"
    using r(5) ios_sizes_not_dirs by (auto simp: r(3) ready_def)
  moreover have "manifest_path \<notin> dirs w'"
    using r(5) manifest_path_not_dirs by (auto simp: r(3) ready_def)
  ultimately show ?thesis by (simp add: ready_def)
qed

lemma fresh_world_ready: "ready fresh_world"
  unfolding ready_def fresh_world_def using ios_sizes_not_dirs manifest_path_not_dirs by auto

lemma resized_shape:
  "width src = height src \<Longrightarrow> width (resized R src n) = n \<and> height (resized R src n) = n"
  by (auto simp: resized_def)

lemma variant_image_shape:
  "width (variant_image R e) = variant_pixels e" "height (variant_image R e) = variant_pixels e"
  by (simp_all add: variant_image_def resized_shape)

lemma manifest_written:
  assumes "main R w = Inr w'"
  shows "files w' manifest_path = Some (JSON manifest)"
proof -
  have "(manifest_path, JSON manifest) \<in> set (written R)"
    by (simp add: written_def)
  then show ?thesis
    by (simp add: main_Inr(2) [OF assms] replay_written [OF written_paths_distinct])
qed

lemma variant_written:
  assumes "main R w = Inr w'" and "e \<in> set ios_sizes"
  shows "files w' (variant_path e) = Some (PNG (variant_image R e))"
    and "(variant_path e, PNG (variant_image R e)) \<in> set (written R)"
proof -
  show m: "(variant_path e, PNG (variant_image R e)) \<in> set (written R)"
    using assms(2) by (simp add: written_def)
  then show "files w' (variant_path e) = Some (PNG (variant_image R e))"
    by (simp add: main_Inr(2) [OF assms(1)] replay_written [OF written_paths_distinct])
qed

lemma written_png:
  "filter (\<lambda>j. is_png (snd j)) (written R) =
     (''app-store/icon-1024.png'', PNG (icon_image R 1024))
     # map (\<lambda>e. (variant_path e, PNG (variant_image R e))) ios_sizes"
  by (simp add: written_def filter_map comp_def)

lemma written_json:
  "filter (\<lambda>j. \<not> is_png (snd j)) (written R) = [(manifest_path, JSON manifest)]"
  by (simp add: written_def filter_map comp_def)

lemma idiom_of_eq:
  "idiom_of b =
     (if numval b \<in> {20, 29, 40, 60} then ''iphone''
      else if numval b \<in> {76, 83.5} then ''ipad''
      else ''ios-marketing'')"
  by (simp add: idiom_of_def py_in_def)

lemma ios_sizes_length: "length ios_sizes = 15"
  by (simp add: ios_sizes_def)

lemma ios_sizes_round:
  "\<forall>e \<in> set ios_sizes. variant_pixels e = spec_round (numval (fst e) * numval (snd e))"
  by code_simp

lemma ios_sizes_filenames_distinct:
  "distinct (map (\<lambda>e. dict_get (variant_entry e) ''filename'') ios_sizes)"
  by code_simp

lemma ios_sizes_marketing:
  "\<forall>e \<in> set ios_sizes. numval (fst e) \<notin> {20, 29, 40, 60, 76, 83.5} \<longleftrightarrow> fst e = PyInt 1024"
  by code_simp

lemma ios_sizes_names:
  "map (\<lambda>e. (dict_get (variant_entry e) ''filename'', dict_get (variant_entry e) ''size'')) ios_sizes =
    [(Some (JStr ''icon-20@1x.png''), Some (JStr ''20x20'')),
     (Some (JStr ''icon-20@2x.png''), Some (JStr ''20x20'')),
     (Some (JStr ''icon-20@3x.png''), Some (JStr ''20x20'')),
     (Some (JStr ''icon-29@1x.png''), Some (JStr ''29x29'')),
     (Some (JStr ''icon-29@2x.png''), Some (JStr ''29x29'')),
     (Some (JStr ''icon-29@3x.png''), Some (JStr ''29x29'')),
     (Some (JStr ''icon-40@1x.png''), Some (JStr ''40x40'')),
     (Some (JStr ''icon-40@2x.png''), Some (JStr ''40x40'')),
     (Some (JStr ''icon-40@3x.png''), Some (JStr ''40x40'')),
     (Some (JStr ''icon-60@2x.png''), Some (JStr ''60x60'')),
     (Some (JStr ''icon-60@3x.png''), Some (JStr ''60x60'')),
     (Some (JStr ''icon-76@1x.png''), Some (JStr ''76x76'')),
     (Some (JStr ''icon-76@2x.png''), Some (JStr ''76x76'')),
     (Some (JStr ''icon-83.5@2x.png''), Some (JStr ''83.5x83.5'')),
     (Some (JStr ''icon-1024@1x.png''), Some (JStr ''1024x1024''))]"
  by code_simp

lemma entry_60_3:
  "ios_sizes ! 10 = (PyInt 60, PyInt 3)"
  "variant_entry (PyInt 60, PyInt 3) =
     JObj [(''filename'', JStr ''icon-60@3x.png''), (''idiom'', JStr ''iphone''),
           (''scale'', JStr ''3x''), (''size'', JStr ''60x60'')]"
  "variant_path (PyInt 60, PyInt 3) = ''app-store/AppIcon.appiconset/icon-60@3x.png''"
  "variant_pixels (PyInt 60, PyInt 3) = 180"
  by code_simp+

lemma entry_835_2:
  "(PyFloat 83.5, PyInt 2) \<in> set ios_sizes"
  "variant_path (PyFloat 83.5, PyInt 2) = ''app-store/AppIcon.appiconset/icon-83.5@2x.png''"
  "variant_pixels (PyFloat 83.5, PyInt 2) = 167"
  "spec_round (numval (PyFloat 83.5) * numval (PyInt 2)) = 167"
  by code_simp+

subsection \<open>The export\<close>

text \<open>
  The script computes the pixel size with \<^verbatim>\<open>int\<close>, which truncates. On the table
  this is the same as rounding, because every product there is a whole number
  (\<open>ios_sizes_round\<close>); on other inputs it is not: a nominal size of 83.5 at scale 1
  would give 83 pixels, not 84.
\<close>

lemma truncation_is_not_rounding:
  "variant_pixels (PyFloat 83.5, PyInt 1) = 83"
  "spec_round (numval (PyFloat 83.5) * numval (PyInt 1)) = 84"
  by code_simp+

text \<open>
  C1. After a complete run, for every entry \<open>(b, s)\<close> of the table the file named
  after the entry holds an image whose width and height are both
  \<open>round (b \<times> s)\<close>, rounding to nearest; for the entry \<open>(83.5, 2)\<close> that is 167 by 167.
\<close>

theorem variant_pixel_size:
  assumes "main R w = Inr w'" and "(b, s) \<in> set ios_sizes"
  shows "\<exists>im. files w' (''app-store/AppIcon.appiconset/'' @ ''icon-'' @ py_str b @ ''@'' @ py_str s @ ''x.png'')
            = Some (PNG im)
          \<and> width im = spec_round (numval b * numval s)
          \<and> height im = spec_round (numval b * numval s)
          \<and> ((b, s) = (PyFloat 83.5, PyInt 2) \<longrightarrow> width im = 167 \<and> height im = 167)"
proof -
  have p: "variant_path (b, s) =
      ''app-store/AppIcon.appiconset/'' @ ''icon-'' @ py_str b @ ''@'' @ py_str s @ ''x.png''"
    by (simp add: variant_path_def variant_filename_def)
  have f: "files w' (variant_path (b, s)) = Some (PNG (variant_image R (b, s)))"
    by (rule variant_written(1) [OF assms])
  have r: "variant_pixels (b, s) = spec_round (numval b * numval s)"
    using ios_sizes_round assms(2) by fastforce
  have "(b, s) = (PyFloat 83.5, PyInt 2) \<longrightarrow> variant_pixels (b, s) = 167"
    using entry_835_2(3) by simp
  with f r show ?thesis
    unfolding p [symmetric] by (simp add: variant_image_shape)
qed

theorem variant_pixel_size_witness:
  "\<exists>w' im. main box_raster fresh_world = Inr w'
     \<and> (PyFloat 83.5, PyInt 2) \<in> set ios_sizes
     \<and> files w' ''app-store/AppIcon.appiconset/icon-83.5@2x.png'' = Some (PNG im)
     \<and> width im = 167 \<and> height im = 167"
proof -
  obtain w' where m: "main box_raster fresh_world = Inr w'"
    using main_ok [OF fresh_world_ready] by blast
  have n: "''app-store/AppIcon.appiconset/'' @ ''icon-'' @ py_str (PyFloat 83.5) @ ''@''
      @ py_str (PyInt 2) @ ''x.png'' = ''app-store/AppIcon.appiconset/icon-83.5@2x.png''"
    by code_simp
  from variant_pixel_size [OF m entry_835_2(1)] m entry_835_2(1) show ?thesis
    unfolding n by auto
qed

text \<open>
  C3. After a complete run the manifest lists one entry per table entry, 15 of them, in
  the order of the table; the file names of the entries differ pairwise; every entry's
  file name names an image file that this run wrote; and the run wrote 15 + 1 image files
  and one manifest file, each to a path of its own.
\<close>

theorem export_manifest_and_files:
  assumes "main R w = Inr w'"
  shows "\<exists>imgs new.
      files w' ''app-store/AppIcon.appiconset/Contents.json'' =
        Some (JSON (JObj [(''images'', JList imgs),
                          (''info'', JObj [(''author'', JStr ''xcode''), (''version'', JInt 1)])]))
    \<and> imgs = map variant_entry ios_sizes
    \<and> length imgs = 15
    \<and> distinct (map (\<lambda>d. dict_get d ''filename'') imgs)
    \<and> (\<forall>d \<in> set imgs. \<exists>f im. dict_get d ''filename'' = Some (JStr f)
          \<and> files w' (''app-store/AppIcon.appiconset/'' @ f) = Some (PNG im)
          \<and> (''app-store/AppIcon.appiconset/'' @ f, PNG im) \<in> set new)
    \<and> journal w' = journal w @ new
    \<and> distinct (map fst new)
    \<and> length (filter (\<lambda>j. is_png (snd j)) new) = length ios_sizes + 1
    \<and> filter (\<lambda>j. \<not> is_png (snd j)) new =
        [(''app-store/AppIcon.appiconset/Contents.json'', JSON (JObj [(''images'', JList imgs),
                          (''info'', JObj [(''author'', JStr ''xcode''), (''version'', JInt 1)])]))]"
proof -
  have a: "files w' ''app-store/AppIcon.appiconset/Contents.json'' =
        Some (JSON (JObj [(''images'', JList (map variant_entry ios_sizes)),
                          (''info'', JObj [(''author'', JStr ''xcode''), (''version'', JInt 1)])]))"
    using manifest_written [OF assms] by (simp add: manifest_path_def manifest_def)
  have b: "length (map variant_entry ios_sizes) = 15"
    by (simp add: ios_sizes_length)
  have c: "distinct (map (\<lambda>d. dict_get d ''filename'') (map variant_entry ios_sizes))"
    using ios_sizes_filenames_distinct by (simp add: comp_def)
  have d: "\<forall>d \<in> set (map variant_entry ios_sizes). \<exists>f im. dict_get d ''filename'' = Some (JStr f)
          \<and> files w' (''app-store/AppIcon.appiconset/'' @ f) = Some (PNG im)
          \<and> (''app-store/AppIcon.appiconset/'' @ f, PNG im) \<in> set (written R)"
  proof
    fix d assume "d \<in> set (map variant_entry ios_sizes)"
    then obtain e where e: "e \<in> set ios_sizes" and d: "d = variant_entry e" by auto
    have "dict_get d ''filename'' = Some (JStr (variant_filename e))"
      by (simp add: d variant_entry_def)
    moreover have "files w' (''app-store/AppIcon.appiconset/'' @ variant_filename e)
        = Some (PNG (variant_image R e))"
      using variant_written(1) [OF assms e] by (simp add: variant_path_def)
    moreover have "(''app-store/AppIcon.appiconset/'' @ variant_filename e, PNG (variant_image R e))
        \<in> set (written R)"
      using variant_written(2) [OF assms e] by (simp add: variant_path_def)
    ultimately show "\<exists>f im. dict_get d ''filename'' = Some (JStr f)
          \<and> files w' (''app-store/AppIcon.appiconset/'' @ f) = Some (PNG im)
          \<and> (''app-store/AppIcon.appiconset/'' @ f, PNG im) \<in> set (written R)"
      by blast
  qed
  have e: "journal w' = journal w @ written R"
    by (rule main_Inr(1) [OF assms])
  have f: "length (filter (\<lambda>j. is_png (snd j)) (written R)) = length ios_sizes + 1"
    by (simp add: written_png)
  have g: "filter (\<lambda>j. \<not> is_png (snd j)) (written R) =
        [(''app-store/AppIcon.appiconset/Contents.json'',
          JSON (JObj [(''images'', JList (map variant_entry ios_sizes)),
                      (''info'', JObj [(''author'', JStr ''xcode''), (''version'', JInt 1)])]))]"
    by (simp add: written_json manifest_path_def manifest_def)
  show ?thesis
    by (rule exI [of _ "map variant_entry ios_sizes"], rule exI [of _ "written R"])
       (intro conjI a refl b c d e written_paths_distinct f g)
qed

theorem export_manifest_and_files_witness:
  "\<exists>w' imgs new. main box_raster fresh_world = Inr w'
     \<and> files w' ''app-store/AppIcon.appiconset/Contents.json'' =
        Some (JSON (JObj [(''images'', JList imgs),
                          (''info'', JObj [(''author'', JStr ''xcode''), (''version'', JInt 1)])]))
     \<and> length imgs = 15
     \<and> distinct (map (\<lambda>d. dict_get d ''filename'') imgs)
     \<and> journal w' = new
     \<and> distinct (map fst new)
     \<and> length (filter (\<lambda>j. is_png (snd j)) new) = 16
     \<and> length (filter (\<lambda>j. \<not> is_png (snd j)) new) = 1"
proof -
  obtain w' where m: "main box_raster fresh_world = Inr w'"
    using main_ok [OF fresh_world_ready] by blast
  from export_manifest_and_files [OF m] obtain imgs new where
    "files w' ''app-store/AppIcon.appiconset/Contents.json'' =
        Some (JSON (JObj [(''images'', JList imgs),
                          (''info'', JObj [(''author'', JStr ''xcode''), (''version'', JInt 1)])]))"
    "length imgs = 15"
    "distinct (map (\<lambda>d. dict_get d ''filename'') imgs)"
    "journal w' = journal fresh_world @ new"
    "distinct (map fst new)"
    "length (filter (\<lambda>j. is_png (snd j)) new) = length ios_sizes + 1"
    "filter (\<lambda>j. \<not> is_png (snd j)) new =
        [(''app-store/AppIcon.appiconset/Contents.json'', JSON (JObj [(''images'', JList imgs),
                          (''info'', JObj [(''author'', JStr ''xcode''), (''version'', JInt 1)])]))]"
    by blast
  with m show ?thesis
    by (simp add: ios_sizes_length fresh_world_def)
qed

text \<open>
  C4. After a complete run, the idiom of the manifest entry of each table entry is
  \<^verbatim>\<open>iphone\<close> when the nominal size is one of 20, 29, 40, 60, \<^verbatim>\<open>ipad\<close> when it is
  76 or 83.5, and \<^verbatim>\<open>ios-marketing\<close> otherwise; in the table, otherwise means 1024.
\<close>

theorem manifest_idiom:
  assumes "main R w = Inr w'"
  shows "\<exists>imgs rest.
      files w' ''app-store/AppIcon.appiconset/Contents.json'' =
        Some (JSON (JObj ((''images'', JList imgs) # rest)))
    \<and> length imgs = length ios_sizes
    \<and> (\<forall>i < length ios_sizes.
          dict_get (imgs ! i) ''idiom'' =
            Some (JStr (if numval (fst (ios_sizes ! i)) \<in> {20, 29, 40, 60} then ''iphone''
                        else if numval (fst (ios_sizes ! i)) \<in> {76, 83.5} then ''ipad''
                        else ''ios-marketing'')))
    \<and> (\<forall>i < length ios_sizes.
          numval (fst (ios_sizes ! i)) \<notin> {20, 29, 40, 60, 76, 83.5}
          \<longleftrightarrow> fst (ios_sizes ! i) = PyInt 1024)"
proof -
  have a: "files w' ''app-store/AppIcon.appiconset/Contents.json'' =
        Some (JSON (JObj ((''images'', JList (map variant_entry ios_sizes))
          # [(''info'', JObj [(''author'', JStr ''xcode''), (''version'', JInt 1)])])))"
    using manifest_written [OF assms] by (simp add: manifest_path_def manifest_def)
  have b: "length (map variant_entry ios_sizes) = length ios_sizes" by simp
  have c: "\<forall>i < length ios_sizes.
          dict_get (map variant_entry ios_sizes ! i) ''idiom'' =
            Some (JStr (if numval (fst (ios_sizes ! i)) \<in> {20, 29, 40, 60} then ''iphone''
                        else if numval (fst (ios_sizes ! i)) \<in> {76, 83.5} then ''ipad''
                        else ''ios-marketing''))"
    by (simp add: variant_entry_def idiom_of_eq)
  have d: "\<forall>i < length ios_sizes.
          numval (fst (ios_sizes ! i)) \<notin> {20, 29, 40, 60, 76, 83.5}
          \<longleftrightarrow> fst (ios_sizes ! i) = PyInt 1024"
    using ios_sizes_marketing nth_mem by blast
  show ?thesis
    by (rule exI [of _ "map variant_entry ios_sizes"],
        rule exI [of _ "[(''info'', JObj [(''author'', JStr ''xcode''), (''version'', JInt 1)])]"])
       (intro conjI a b c d)
qed

theorem manifest_idiom_witness:
  "\<exists>w' imgs rest. main box_raster fresh_world = Inr w'
     \<and> files w' ''app-store/AppIcon.appiconset/Contents.json'' =
        Some (JSON (JObj ((''images'', JList imgs) # rest)))
     \<and> dict_get (imgs ! 0) ''idiom'' = Some (JStr ''iphone'')
     \<and> dict_get (imgs ! 13) ''idiom'' = Some (JStr ''ipad'')
     \<and> dict_get (imgs ! 14) ''idiom'' = Some (JStr ''ios-marketing'')"
proof -
  obtain w' where m: "main box_raster fresh_world = Inr w'"
    using main_ok [OF fresh_world_ready] by blast
  from manifest_idiom [OF m] obtain imgs rest where
    f: "files w' ''app-store/AppIcon.appiconset/Contents.json'' =
        Some (JSON (JObj ((''images'', JList imgs) # rest)))"
    and i: "\<forall>i < length ios_sizes.
          dict_get (imgs ! i) ''idiom'' =
            Some (JStr (if numval (fst (ios_sizes ! i)) \<in> {20, 29, 40, 60} then ''iphone''
                        else if numval (fst (ios_sizes ! i)) \<in> {76, 83.5} then ''ipad''
                        else ''ios-marketing''))"
    by blast
  have n: "ios_sizes ! 0 = (PyInt 20, PyInt 1)" "ios_sizes ! 13 = (PyFloat 83.5, PyInt 2)"
    "ios_sizes ! 14 = (PyInt 1024, PyInt 1)"
    by (simp_all add: ios_sizes_def)
  have "dict_get (imgs ! 0) ''idiom'' = Some (JStr ''iphone'')"
    using i [rule_format, of 0] by (simp add: n ios_sizes_length)
  moreover have "dict_get (imgs ! 13) ''idiom'' = Some (JStr ''ipad'')"
    using i [rule_format, of 13] by (simp add: n ios_sizes_length)
  moreover have "dict_get (imgs ! 14) ''idiom'' = Some (JStr ''ios-marketing'')"
    using i [rule_format, of 14] by (simp add: n ios_sizes_length)
  ultimately show ?thesis using m f by blast
qed

text \<open>
  C5. The table entry \<open>(60, 3)\<close>, the eleventh, gives a 180 by 180 image file
  \<^verbatim>\<open>icon-60@3x.png\<close>, written by the run, and the manifest entry with file name
  \<^verbatim>\<open>icon-60@3x.png\<close>, idiom \<^verbatim>\<open>iphone\<close>, scale \<^verbatim>\<open>3x\<close> and size \<^verbatim>\<open>60x60\<close>.
\<close>

theorem entry_60_3x:
  assumes "main R w = Inr w'"
  shows "ios_sizes ! 10 = (PyInt 60, PyInt 3)
    \<and> (\<exists>im. files w' ''app-store/AppIcon.appiconset/icon-60@3x.png'' = Some (PNG im)
          \<and> width im = 180 \<and> height im = 180
          \<and> (''app-store/AppIcon.appiconset/icon-60@3x.png'', PNG im)
              \<in> set (drop (length (journal w)) (journal w')))
    \<and> (\<exists>imgs rest.
          files w' ''app-store/AppIcon.appiconset/Contents.json'' =
            Some (JSON (JObj ((''images'', JList imgs) # rest)))
        \<and> imgs ! 10 =
            JObj [(''filename'', JStr ''icon-60@3x.png''), (''idiom'', JStr ''iphone''),
                  (''scale'', JStr ''3x''), (''size'', JStr ''60x60'')])"
proof -
  have mem: "(PyInt 60, PyInt 3) \<in> set ios_sizes"
    by (simp add: ios_sizes_def)
  have a: "files w' ''app-store/AppIcon.appiconset/icon-60@3x.png''
      = Some (PNG (variant_image R (PyInt 60, PyInt 3)))"
    using variant_written(1) [OF assms mem] by (simp add: entry_60_3(3))
  have b: "(''app-store/AppIcon.appiconset/icon-60@3x.png'', PNG (variant_image R (PyInt 60, PyInt 3)))
      \<in> set (drop (length (journal w)) (journal w'))"
    using variant_written(2) [OF assms mem] by (simp add: entry_60_3(3) main_Inr(1) [OF assms])
  have c: "width (variant_image R (PyInt 60, PyInt 3)) = 180"
    "height (variant_image R (PyInt 60, PyInt 3)) = 180"
    by (simp_all add: variant_image_shape entry_60_3(4))
  have d: "files w' ''app-store/AppIcon.appiconset/Contents.json'' =
        Some (JSON (JObj ((''images'', JList (map variant_entry ios_sizes))
          # [(''info'', JObj [(''author'', JStr ''xcode''), (''version'', JInt 1)])])))"
    using manifest_written [OF assms] by (simp add: manifest_path_def manifest_def)
  have e: "map variant_entry ios_sizes ! 10 =
            JObj [(''filename'', JStr ''icon-60@3x.png''), (''idiom'', JStr ''iphone''),
                  (''scale'', JStr ''3x''), (''size'', JStr ''60x60'')]"
    by (simp add: ios_sizes_length entry_60_3(1,2))
  from a b c d e entry_60_3(1) show ?thesis by blast
qed

theorem entry_60_3x_witness:
  "\<exists>w' im imgs rest. main box_raster fresh_world = Inr w'
     \<and> files w' ''app-store/AppIcon.appiconset/icon-60@3x.png'' = Some (PNG im)
     \<and> width im = 180 \<and> height im = 180
     \<and> files w' ''app-store/AppIcon.appiconset/Contents.json'' =
            Some (JSON (JObj ((''images'', JList imgs) # rest)))
     \<and> imgs ! 10 =
            JObj [(''filename'', JStr ''icon-60@3x.png''), (''idiom'', JStr ''iphone''),
                  (''scale'', JStr ''3x''), (''size'', JStr ''60x60'')]"
proof -
  obtain w' where m: "main box_raster fresh_world = Inr w'"
    using main_ok [OF fresh_world_ready] by blast
  from entry_60_3x [OF m] m show ?thesis by blast
qed

text \<open>
  C10. File names and size labels print the nominal size as the table writes it: the
  entry \<open>(83.5, 2)\<close> gets \<^verbatim>\<open>icon-83.5@2x.png\<close> and \<^verbatim>\<open>83.5x83.5\<close>, with the decimal
  point, and the entries with an integer size get names and labels without one, such as
  \<^verbatim>\<open>icon-20@2x.png\<close> and \<^verbatim>\<open>20x20\<close>. The file of the \<open>(83.5, 2)\<close> entry is written
  under that name.
\<close>

theorem manifest_names_literal:
  assumes "main R w = Inr w'"
  shows "\<exists>imgs rest.
      files w' ''app-store/AppIcon.appiconset/Contents.json'' =
        Some (JSON (JObj ((''images'', JList imgs) # rest)))
    \<and> map (\<lambda>d. (dict_get d ''filename'', dict_get d ''size'')) imgs =
        [(Some (JStr ''icon-20@1x.png''), Some (JStr ''20x20'')),
         (Some (JStr ''icon-20@2x.png''), Some (JStr ''20x20'')),
         (Some (JStr ''icon-20@3x.png''), Some (JStr ''20x20'')),
         (Some (JStr ''icon-29@1x.png''), Some (JStr ''29x29'')),
         (Some (JStr ''icon-29@2x.png''), Some (JStr ''29x29'')),
         (Some (JStr ''icon-29@3x.png''), Some (JStr ''29x29'')),
         (Some (JStr ''icon-40@1x.png''), Some (JStr ''40x40'')),
         (Some (JStr ''icon-40@2x.png''), Some (JStr ''40x40'')),
         (Some (JStr ''icon-40@3x.png''), Some (JStr ''40x40'')),
         (Some (JStr ''icon-60@2x.png''), Some (JStr ''60x60'')),
         (Some (JStr ''icon-60@3x.png''), Some (JStr ''60x60'')),
         (Some (JStr ''icon-76@1x.png''), Some (JStr ''76x76'')),
         (Some (JStr ''icon-76@2x.png''), Some (JStr ''76x76'')),
         (Some (JStr ''icon-83.5@2x.png''), Some (JStr ''83.5x83.5'')),
         (Some (JStr ''icon-1024@1x.png''), Some (JStr ''1024x1024''))]
    \<and> ios_sizes ! 13 = (PyFloat 83.5, PyInt 2)
    \<and> ios_sizes ! 1 = (PyInt 20, PyInt 2)
    \<and> (\<exists>im. files w' ''app-store/AppIcon.appiconset/icon-83.5@2x.png'' = Some (PNG im))"
proof -
  have a: "files w' ''app-store/AppIcon.appiconset/Contents.json'' =
        Some (JSON (JObj ((''images'', JList (map variant_entry ios_sizes))
          # [(''info'', JObj [(''author'', JStr ''xcode''), (''version'', JInt 1)])])))"
    using manifest_written [OF assms] by (simp add: manifest_path_def manifest_def)
  have b: "map (\<lambda>d. (dict_get d ''filename'', dict_get d ''size'')) (map variant_entry ios_sizes) =
      map (\<lambda>e. (dict_get (variant_entry e) ''filename'', dict_get (variant_entry e) ''size'')) ios_sizes"
    by (simp add: comp_def)
  have c: "ios_sizes ! 13 = (PyFloat 83.5, PyInt 2)" "ios_sizes ! 1 = (PyInt 20, PyInt 2)"
    by (simp_all add: ios_sizes_def)
  have d: "\<exists>im. files w' ''app-store/AppIcon.appiconset/icon-83.5@2x.png'' = Some (PNG im)"
    using variant_written(1) [OF assms entry_835_2(1)] unfolding entry_835_2(2) by blast
  show ?thesis
    by (rule exI [of _ "map variant_entry ios_sizes"],
        rule exI [of _ "[(''info'', JObj [(''author'', JStr ''xcode''), (''version'', JInt 1)])]"])
       (intro conjI a c d, simp only: b ios_sizes_names)
qed

theorem manifest_names_literal_witness:
  "\<exists>w' imgs rest. main box_raster fresh_world = Inr w'
     \<and> files w' ''app-store/AppIcon.appiconset/Contents.json'' =
        Some (JSON (JObj ((''images'', JList imgs) # rest)))
     \<and> (dict_get (imgs ! 13) ''filename'', dict_get (imgs ! 13) ''size'')
          = (Some (JStr ''icon-83.5@2x.png''), Some (JStr ''83.5x83.5''))
     \<and> (dict_get (imgs ! 1) ''filename'', dict_get (imgs ! 1) ''size'')
          = (Some (JStr ''icon-20@2x.png''), Some (JStr ''20x20''))"
proof -
  obtain w' where m: "main box_raster fresh_world = Inr w'"
    using main_ok [OF fresh_world_ready] by blast
  from manifest_names_literal [OF m] show ?thesis
  proof (elim exE conjE)
    fix imgs rest
    assume f: "files w' ''app-store/AppIcon.appiconset/Contents.json'' =
        Some (JSON (JObj ((''images'', JList imgs) # rest)))"
    assume n: "map (\<lambda>d. (dict_get d ''filename'', dict_get d ''size'')) imgs =
        [(Some (JStr ''icon-20@1x.png''), Some (JStr ''20x20'')),
         (Some (JStr ''icon-20@2x.png''), Some (JStr ''20x20'')),
         (Some (JStr ''icon-20@3x.png''), Some (JStr ''20x20'')),
         (Some (JStr ''icon-29@1x.png''), Some (JStr ''29x29'')),
         (Some (JStr ''icon-29@2x.png''), Some (JStr ''29x29'')),
         (Some (JStr ''icon-29@3x.png''), Some (JStr ''29x29'')),
         (Some (JStr ''icon-40@1x.png''), Some (JStr ''40x40'')),
         (Some (JStr ''icon-40@2x.png''), Some (JStr ''40x40'')),
         (Some (JStr ''icon-40@3x.png''), Some (JStr ''40x40'')),
         (Some (JStr ''icon-60@2x.png''), Some (JStr ''60x60'')),
         (Some (JStr ''icon-60@3x.png''), Some (JStr ''60x60'')),
         (Some (JStr ''icon-76@1x.png''), Some (JStr ''76x76'')),
         (Some (JStr ''icon-76@2x.png''), Some (JStr ''76x76'')),
         (Some (JStr ''icon-83.5@2x.png''), Some (JStr ''83.5x83.5'')),
         (Some (JStr ''icon-1024@1x.png''), Some (JStr ''1024x1024''))]"
    have len: "length imgs = 15"
      using arg_cong [OF n, of length] by simp
    have "map (\<lambda>d. (dict_get d ''filename'', dict_get d ''size'')) imgs ! 13
      = (dict_get (imgs ! 13) ''filename'', dict_get (imgs ! 13) ''size'')"
    "map (\<lambda>d. (dict_get d ''filename'', dict_get d ''size'')) imgs ! 1
      = (dict_get (imgs ! 1) ''filename'', dict_get (imgs ! 1) ''size'')"
    using len by simp_all
  then have "(dict_get (imgs ! 13) ''filename'', dict_get (imgs ! 13) ''size'')
          = (Some (JStr ''icon-83.5@2x.png''), Some (JStr ''83.5x83.5''))"
    "(dict_get (imgs ! 1) ''filename'', dict_get (imgs ! 1) ''size'')
          = (Some (JStr ''icon-20@2x.png''), Some (JStr ''20x20''))"
    unfolding n by simp_all
    with m f show ?thesis by blast
  qed
qed

subsection \<open>Determinism\<close>

text \<open>
  C7. The image that \<open>create_icon\<close> returns for a positive size does not depend on the
  world it is called in: two calls, in any two worlds, return pixel-identical images; in
  particular a second call right after the first returns a new image equal to the first,
  which it leaves untouched. The manifest that a complete run writes does not depend on
  the world either: two complete runs write the same manifest, and a run that follows a
  complete run completes and writes the same manifest again.
\<close>

theorem render_and_manifest_deterministic:
  "(0 < S \<and> create_icon R S w1 = Inr (i1, v1) \<and> create_icon R S w2 = Inr (i2, v2)
      \<longrightarrow> heap v1 ! i1 = heap v2 ! i2)
   \<and> (0 < S \<and> create_icon R S w1 = Inr (i1, v1) \<and> create_icon R S v1 = Inr (j, u)
      \<longrightarrow> i1 \<noteq> j \<and> heap u ! i1 = heap v1 ! i1 \<and> heap u ! j = heap u ! i1)
   \<and> (main R w1 = Inr m1 \<and> main R w2 = Inr m2
      \<longrightarrow> files m1 ''app-store/AppIcon.appiconset/Contents.json''
            = files m2 ''app-store/AppIcon.appiconset/Contents.json''
          \<and> files m1 ''app-store/AppIcon.appiconset/Contents.json'' \<noteq> None)
   \<and> (main R w1 = Inr m1
      \<longrightarrow> (\<exists>m2. main R m1 = Inr m2
            \<and> files m2 ''app-store/AppIcon.appiconset/Contents.json''
              = files m1 ''app-store/AppIcon.appiconset/Contents.json''))"
proof (intro conjI impI)
  assume "0 < S \<and> create_icon R S w1 = Inr (i1, v1) \<and> create_icon R S w2 = Inr (i2, v2)"
  then show "heap v1 ! i1 = heap v2 ! i2"
    by (auto simp: create_icon_eq)
next
  assume a: "0 < S \<and> create_icon R S w1 = Inr (i1, v1) \<and> create_icon R S v1 = Inr (j, u)"
  then have 1: "i1 = length (heap w1)" "heap v1 = heap w1 @ [icon_image R S]"
    and 2: "j = length (heap v1)" "heap u = heap v1 @ [icon_image R S]"
    by (auto simp: create_icon_eq)
  show "i1 \<noteq> j" by (simp add: 1 2)
  show "heap u ! i1 = heap v1 ! i1" by (simp add: 1 2 nth_append)
  show "heap u ! j = heap u ! i1" by (simp add: 1 2 nth_append)
next
  assume a: "main R w1 = Inr m1 \<and> main R w2 = Inr m2"
  then have "files m1 manifest_path = Some (JSON manifest)" "files m2 manifest_path = Some (JSON manifest)"
    using manifest_written by blast+
  then show "files m1 ''app-store/AppIcon.appiconset/Contents.json''
            = files m2 ''app-store/AppIcon.appiconset/Contents.json''"
    and "files m1 ''app-store/AppIcon.appiconset/Contents.json'' \<noteq> None"
    by (simp_all add: manifest_path_def)
next
  assume a: "main R w1 = Inr m1"
  from main_ok [OF main_ready_again [OF a]] obtain m2 where b: "main R m1 = Inr m2"
    by blast
  have "files m1 manifest_path = Some (JSON manifest)" "files m2 manifest_path = Some (JSON manifest)"
    using a b manifest_written by blast+
  with b show "\<exists>m2. main R m1 = Inr m2
            \<and> files m2 ''app-store/AppIcon.appiconset/Contents.json''
              = files m1 ''app-store/AppIcon.appiconset/Contents.json''"
    by (simp add: manifest_path_def)
qed

theorem render_and_manifest_deterministic_witness:
  "\<exists>i1 v1 j u m1 m2.
      (0::int) < 16
    \<and> create_icon box_raster 16 fresh_world = Inr (i1, v1)
    \<and> create_icon box_raster 16 v1 = Inr (j, u)
    \<and> i1 \<noteq> j \<and> heap u ! i1 = heap v1 ! i1 \<and> heap u ! j = heap u ! i1
    \<and> main box_raster fresh_world = Inr m1
    \<and> main box_raster m1 = Inr m2
    \<and> files m2 ''app-store/AppIcon.appiconset/Contents.json''
        = files m1 ''app-store/AppIcon.appiconset/Contents.json''
    \<and> files m1 ''app-store/AppIcon.appiconset/Contents.json'' \<noteq> None"
proof -
  obtain i1 v1 where c1: "create_icon box_raster 16 fresh_world = Inr (i1, v1)"
    by (simp add: create_icon_eq)
  obtain j u where c2: "create_icon box_raster 16 v1 = Inr (j, u)"
    by (simp add: create_icon_eq)
  obtain m1 where r1: "main box_raster fresh_world = Inr m1"
    using main_ok [OF fresh_world_ready] by blast
  note d = render_and_manifest_deterministic
    [of 16 box_raster fresh_world i1 v1 fresh_world i1 v1 j u m1 m1]
  from d r1 obtain m2 where r2: "main box_raster m1 = Inr m2"
    and same: "files m2 ''app-store/AppIcon.appiconset/Contents.json''
        = files m1 ''app-store/AppIcon.appiconset/Contents.json''"
    by blast
  from d c1 c2 have "i1 \<noteq> j \<and> heap u ! i1 = heap v1 ! i1 \<and> heap u ! j = heap u ! i1"
    by simp
  moreover from d r1 have "files m1 ''app-store/AppIcon.appiconset/Contents.json'' \<noteq> None"
    by blast
  ultimately show ?thesis using c1 c2 r1 r2 same by auto
qed

end
